theory Spec2Isabelle
  imports Main "HOL-Library.Word"
begin

section \<open>The parser package of reviewdog (parser.go)\<close>

text \<open>
  A shallow embedding of \<^verbatim>\<open>parser.go\<close>: the parser factory \<^verbatim>\<open>NewParser\<close> and the
  three \<^verbatim>\<open>Parse\<close> methods. The packages the file calls into are not part of it and
  enter the model as follows.
  \<^item> \<^verbatim>\<open>fmts.DefinedFmts()\<close>, \<^verbatim>\<open>errorformat.NewErrorformat\<close>, the errorformat scanner,
    \<^verbatim>\<open>xml.Decoder.Decode\<close> and \<^verbatim>\<open>json.Unmarshal\<close> are parameters of the functions
    that call them: every theorem holds for whatever these do.
  \<^item> \<^verbatim>\<open>bufio.Scanner\<close> with its default split function \<^verbatim>\<open>bufio.ScanLines\<close> and its
    default buffer is modelled by \<open>Scan\<close> below, from the behaviour the Go standard
    library documents.
  \<^item> Go's \<^verbatim>\<open>int\<close> is taken at 64 bits (amd64, arm64), \<^verbatim>\<open>int32\<close> at 32 bits.
\<close>

subsection \<open>Data model\<close>

type_synonym go_int = "64 word"
type_synonym int32 = "32 word"

text \<open>
  The conversion \<^verbatim>\<open>int32(x)\<close> of an \<^verbatim>\<open>int\<close>: the signed value, cut to the low 32 bits.
\<close>

definition to_int32 :: "go_int \<Rightarrow> int32" where
  "to_int32 x = scast x"

text \<open>
  \<^verbatim>\<open>rdf.Position\<close>, \<^verbatim>\<open>rdf.Range\<close>, \<^verbatim>\<open>rdf.Location\<close> and \<^verbatim>\<open>rdf.Diagnostic\<close>, with the
  fields \<^verbatim>\<open>parser.go\<close> writes. A pointer field is an \<open>option\<close>: \<open>None\<close> is \<^verbatim>\<open>nil\<close>.
  The schema's further fields (severity, source, code) are not written by this file
  and are left out. Several structs of the source share field names (\<^verbatim>\<open>Line\<close>,
  \<^verbatim>\<open>Column\<close>, \<^verbatim>\<open>Message\<close>, \<^verbatim>\<open>Lines\<close>); such a field is written with its record's
  name, \<open>Position.Line\<close>.
\<close>

record Position =
  Line :: int32
  Column :: int32

record Range =
  Start :: "Position option"
  End :: "Position option"

record Location =
  Path :: string
  Range :: "Range option"

record Diagnostic =
  Location :: "Location option"
  Message :: string

text \<open>
  \<^verbatim>\<open>CheckResult\<close>. Its \<^verbatim>\<open>Diagnostic\<close> pointer is freshly allocated by every parser of
  this file and never \<^verbatim>\<open>nil\<close>, so the field holds the value.
\<close>

record CheckResult =
  Diagnostic :: Diagnostic
  Lines :: "string list"

text \<open>
  An \<^verbatim>\<open>io.Reader\<close>: the bytes it delivers, finitely many, and how it ends: \<open>None\<close>
  for \<^verbatim>\<open>io.EOF\<close>, \<open>Some msg\<close> for a read error raised once the bytes have been
  delivered.
\<close>

record Reader =
  stream :: string
  read_error :: "string option"

text \<open>
  The errors of the package. \<open>ConfigurationConflict\<close> is
  \<^verbatim>\<open>errors.New("you cannot specify both format name and errorformat at the same time")\<close>,
  \<open>UnsupportedFormat name\<close> is \<^verbatim>\<open>fmt.Errorf("%q is not supported. ...", name)\<close>,
  \<open>EmptyFormat\<close> is \<^verbatim>\<open>errors.New("errorformat is empty")\<close>. \<open>CompilationError\<close> and
  \<open>DecodeError\<close> carry the error a library call returned
  (\<^verbatim>\<open>errorformat.NewErrorformat\<close>; \<^verbatim>\<open>Decode\<close> and \<^verbatim>\<open>json.Unmarshal\<close>), passed on unchanged.
\<close>

datatype error =
    ConfigurationConflict
  | UnsupportedFormat string
  | EmptyFormat
  | CompilationError string
  | DecodeError string

subsection \<open>The pattern-rule engine\<close>

text \<open>\<^verbatim>\<open>errorformat.Entry\<close>, with the fields \<^verbatim>\<open>Parse\<close> reads.\<close>

record Entry =
  Filename :: string
  Lnum :: go_int
  Col :: go_int
  Text :: string
  Valid :: bool
  Lines :: "string list"

text \<open>
  A compiled \<^verbatim>\<open>*errorformat.Errorformat\<close>: for a reader, the entries that
  \<^verbatim>\<open>for s.Scan() { e := s.Entry() ... }\<close> visits, in order.
\<close>

type_synonym Errorformat_engine = "Reader \<Rightarrow> Entry list"

subsection \<open>The parser factory\<close>

record ParserOpt =
  FormatName :: string
  Errorformat :: "string list"

datatype Parser =
    CheckStyleParser
  | RDJSONLParser
  | ErrorformatParser (efm: Errorformat_engine)

definition NewErrorformatParser :: "Errorformat_engine \<Rightarrow> Parser" where
  "NewErrorformatParser e = ErrorformatParser e"

definition NewErrorformatParserString ::
  "(string list \<Rightarrow> string + Errorformat_engine) \<Rightarrow> string list \<Rightarrow> error + Parser" where
  "NewErrorformatParserString NewErrorformat efms =
     (case NewErrorformat efms of
        Inl msg \<Rightarrow> Inl (CompilationError msg)
      | Inr engine \<Rightarrow> Inr (NewErrorformatParser engine))"

definition NewCheckStyleParser :: Parser where
  "NewCheckStyleParser = CheckStyleParser"

definition NewRDJSONLParser :: Parser where
  "NewRDJSONLParser = RDJSONLParser"

text \<open>
  \<^verbatim>\<open>NewParser(opt *ParserOpt)\<close>. \<open>DefinedFmts\<close> is the catalog \<^verbatim>\<open>fmts.DefinedFmts()\<close>
  (each name with the \<^verbatim>\<open>Errorformat\<close> field of its entry), \<open>NewErrorformat\<close> the engine's
  compiler. The option is passed by pointer and line 44 assigns to it, so the function
  returns the option as the caller finds it after the call, beside its result.
\<close>

definition NewParser ::
  "(string \<rightharpoonup> string list) \<Rightarrow> (string list \<Rightarrow> string + Errorformat_engine) \<Rightarrow>
     ParserOpt \<Rightarrow> (error + Parser) \<times> ParserOpt" where
  "NewParser DefinedFmts NewErrorformat opt =
     (let name = FormatName opt in
      if name \<noteq> [] \<and> length (Errorformat opt) > 0 then (Inl ConfigurationConflict, opt)
      else if name = ''checkstyle'' then (Inr NewCheckStyleParser, opt)
      else if name = ''rdjsonl'' then (Inr NewRDJSONLParser, opt)
      else
        (case (if name \<noteq> [] then
                 (case DefinedFmts name of
                    None \<Rightarrow> Inl (UnsupportedFormat name)
                  | Some efms \<Rightarrow> Inr (opt\<lparr>Errorformat := efms\<rparr>))
               else Inr opt) of
           Inl e \<Rightarrow> (Inl e, opt)
         | Inr opt' \<Rightarrow>
             if length (Errorformat opt') = 0 then (Inl EmptyFormat, opt')
             else (NewErrorformatParserString NewErrorformat (Errorformat opt'), opt')))"

subsection \<open>The pattern-rule scanner adapter\<close>

text \<open>
  The loop \<^verbatim>\<open>for s.Scan() { e := s.Entry(); if e.Valid { rs = append(rs, ...) } }\<close>
  over the entries the engine yields, with the slice \<^verbatim>\<open>rs\<close>.
\<close>

fun ErrorformatParser_loop :: "Entry list \<Rightarrow> CheckResult list \<Rightarrow> CheckResult list" where
  "ErrorformatParser_loop [] rs = rs"
| "ErrorformatParser_loop (e # es) rs =
     (if Valid e then
        ErrorformatParser_loop es
          (rs @ [\<lparr>Diagnostic =
                    \<lparr>Location = Some
                       \<lparr>Path = Filename e,
                        Range = Some
                          \<lparr>Start = Some \<lparr>Position.Line = to_int32 (Lnum e),
                                         Position.Column = to_int32 (Col e)\<rparr>,
                           End = None\<rparr>\<rparr>,
                     Diagnostic.Message = Text e\<rparr>,
                  CheckResult.Lines = Entry.Lines e\<rparr>])
      else ErrorformatParser_loop es rs)"

definition ErrorformatParser_Parse ::
  "Errorformat_engine \<Rightarrow> Reader \<Rightarrow> error + CheckResult list" where
  "ErrorformatParser_Parse e r = Inr (ErrorformatParser_loop (e r) [])"

subsection \<open>The structured-markup parser\<close>

text \<open>
  The tree \<^verbatim>\<open>xml.Decoder.Decode\<close> fills: \<^verbatim>\<open>CheckStyleResult\<close>, \<^verbatim>\<open>CheckStyleFile\<close> and
  \<^verbatim>\<open>CheckStyleError\<close> (\<^verbatim>\<open>XMLName\<close> is not read by \<^verbatim>\<open>Parse\<close> and left out). The slices
  hold pointers the decoder allocates, none of them \<^verbatim>\<open>nil\<close>.
\<close>

record CheckStyleError =
  Column :: go_int
  Line :: go_int
  Message :: string
  Severity :: string
  Source :: string

record CheckStyleFile =
  Name :: string
  Errors :: "CheckStyleError list"

record CheckStyleResult =
  Version :: string
  Files :: "CheckStyleFile list"

text \<open>The verb \<^verbatim>\<open>%d\<close> of \<^verbatim>\<open>fmt\<close> on an \<^verbatim>\<open>int\<close>: the decimal digits, after a minus sign.\<close>

definition digit_char :: "nat \<Rightarrow> char" where
  "digit_char n = ''0123456789'' ! n"

function decimal :: "nat \<Rightarrow> string" where
  "decimal n = (if n < 10 then [digit_char n] else decimal (n div 10) @ [digit_char (n mod 10)])"
  by pat_completeness auto
termination
  by (relation "measure id") auto

declare decimal.simps [simp del]

definition fmt_d :: "go_int \<Rightarrow> string" where
  "fmt_d x = (if sint x < 0 then CHR ''-'' # decimal (nat (- sint x)) else decimal (nat (sint x)))"

text \<open>
  \<^verbatim>\<open>fmt.Sprintf("%v:%d:%d: %v: %v (%v)", file.Name, cerr.Line, cerr.Column,
  cerr.Severity, cerr.Message, cerr.Source)\<close>; \<^verbatim>\<open>%v\<close> prints a string as it is.
\<close>

definition Sprintf_line ::
  "string \<Rightarrow> go_int \<Rightarrow> go_int \<Rightarrow> string \<Rightarrow> string \<Rightarrow> string \<Rightarrow> string" where
  "Sprintf_line name line col severity message source =
     name @ '':'' @ fmt_d line @ '':'' @ fmt_d col @ '': '' @ severity @ '': '' @ message @
     '' ('' @ source @ '')''"

text \<open>The inner loop \<^verbatim>\<open>for _, cerr := range file.Errors\<close> (lines 117 to 136).\<close>

fun CheckStyle_errors_loop ::
  "CheckStyleFile \<Rightarrow> CheckStyleError list \<Rightarrow> CheckResult list \<Rightarrow> CheckResult list" where
  "CheckStyle_errors_loop file [] rs = rs"
| "CheckStyle_errors_loop file (cerr # cerrs) rs =
     CheckStyle_errors_loop file cerrs
       (rs @ [\<lparr>Diagnostic =
                 \<lparr>Location = Some
                    \<lparr>Path = Name file,
                     Range = Some
                       \<lparr>Start = Some
                          \<lparr>Position.Line = to_int32 (CheckStyleError.Line cerr),
                           Position.Column = to_int32 (CheckStyleError.Column cerr)\<rparr>,
                        End = None\<rparr>\<rparr>,
                  Diagnostic.Message = CheckStyleError.Message cerr\<rparr>,
               CheckResult.Lines =
                 [Sprintf_line (Name file) (CheckStyleError.Line cerr)
                    (CheckStyleError.Column cerr) (Severity cerr)
                    (CheckStyleError.Message cerr) (Source cerr)]\<rparr>])"

text \<open>The outer loop \<^verbatim>\<open>for _, file := range cs.Files\<close>.\<close>

fun CheckStyle_files_loop :: "CheckStyleFile list \<Rightarrow> CheckResult list \<Rightarrow> CheckResult list" where
  "CheckStyle_files_loop [] rs = rs"
| "CheckStyle_files_loop (file # files) rs =
     CheckStyle_files_loop files (CheckStyle_errors_loop file (Errors file) rs)"

text \<open>
  \<^verbatim>\<open>(*CheckStyleParser).Parse\<close>. \<open>Decode\<close> is \<^verbatim>\<open>xml.NewDecoder(r).Decode(cs)\<close> into a new
  \<^verbatim>\<open>CheckStyleResult\<close>: its error, or the tree it filled.
\<close>

definition CheckStyleParser_Parse ::
  "(Reader \<Rightarrow> string + CheckStyleResult) \<Rightarrow> Reader \<Rightarrow> error + CheckResult list" where
  "CheckStyleParser_Parse Decode r =
     (case Decode r of
        Inl msg \<Rightarrow> Inl (DecodeError msg)
      | Inr cs \<Rightarrow> Inr (CheckStyle_files_loop (Files cs) []))"

subsection \<open>The line scanner\<close>

text \<open>
  \<^verbatim>\<open>bufio.ScanLines\<close> and its helper \<^verbatim>\<open>dropCR\<close>, as the Go standard library has them.
  The result is the number of bytes to advance and the token; \<open>None\<close> is the \<^verbatim>\<open>nil\<close>
  token, a request for more data. The library documents the function so: it returns
  each line of text, stripped of any trailing end-of-line marker; the returned line may
  be empty; the end-of-line marker is one optional carriage return followed by one
  mandatory newline; the last non-empty line of input is returned even if it has no
  newline.
\<close>

definition LF :: char where
  "LF = CHR 0x0A"

definition CR :: char where
  "CR = CHR 0x0D"

definition dropCR :: "string \<Rightarrow> string" where
  "dropCR data = (if data \<noteq> [] \<and> last data = CR then butlast data else data)"

definition ScanLines :: "string \<Rightarrow> bool \<Rightarrow> nat \<times> string option" where
  "ScanLines data atEOF =
     (if atEOF \<and> data = [] then (0, None)
      else if LF \<in> set data then
        (let i = length (takeWhile (\<lambda>c. c \<noteq> LF) data) in (i + 1, Some (dropCR (take i data))))
      else if atEOF then (length data, Some (dropCR data))
      else (0, None))"

text \<open>
  A \<^verbatim>\<open>bufio.Scanner\<close> on a reader. \<open>pending\<close> holds the bytes of the stream from the
  start of the next token on, \<open>src_error\<close> how the reader ends, \<open>token\<close> what
  \<^verbatim>\<open>s.Bytes()\<close> and \<^verbatim>\<open>s.Text()\<close> return, \<open>err\<close> what \<^verbatim>\<open>s.Err()\<close> would return.
\<close>

record Scanner =
  pending :: string
  src_error :: "string option"
  token :: string
  err :: "string option"

definition NewScanner :: "Reader \<Rightarrow> Scanner" where
  "NewScanner r = \<lparr>pending = stream r, src_error = read_error r, token = [], err = None\<rparr>"

definition MaxScanTokenSize :: nat where
  "MaxScanTokenSize = 64 * 1024"

definition ErrTooLong :: string where
  "ErrTooLong = ''bufio.Scanner: token too long''"

text \<open>
  \<^verbatim>\<open>s.Scan()\<close>, for a scanner made by \<^verbatim>\<open>bufio.NewScanner\<close> and left as it is: the split
  function is \<^verbatim>\<open>ScanLines\<close> and the buffer grows up to \<^verbatim>\<open>bufio.MaxScanTokenSize\<close>, 64 * 1024
  bytes. The library documents that scanning stops unrecoverably at EOF, the first I/O
  error, or a token too large to fit in the buffer, and that \<^verbatim>\<open>Scan\<close> returns false when
  there are no more tokens, either by reaching the end of the input or an error.

  The buffer is handed to the split function from the start of the next token. The
  end of the reader, \<^verbatim>\<open>io.EOF\<close> or a read error, is seen by a read into a buffer that still
  has room; from then on the split function is told \<^verbatim>\<open>atEOF\<close> and returns what is left as
  the last token. So \<^verbatim>\<open>atEOF\<close> holds only when fewer than \<open>MaxScanTokenSize\<close> bytes are
  left. A buffer that is full and holds no token ends the scan with \<open>ErrTooLong\<close>; the
  end of the reader with no token left ends it with the reader's error.

  A reader is taken to report its end on a read of its own, as files, pipes and
  in-memory readers do. A reader that returns its last bytes together with its end
  differs in one case only: a last piece of exactly \<open>MaxScanTokenSize\<close> bytes without a
  newline, which \<^verbatim>\<open>bufio.Scanner\<close> then returns as a token. No theorem below about an
  input of \<open>Parse\<close> touches that case: each bounds the lines of its input below
  \<open>MaxScanTokenSize\<close> bytes, or has a newline behind the line that is too long.
\<close>

definition Scan :: "Scanner \<Rightarrow> bool \<times> Scanner" where
  "Scan s =
     (let atEOF = (length (pending s) < MaxScanTokenSize);
          (advance, tok) = ScanLines (take MaxScanTokenSize (pending s)) atEOF
      in case tok of
           Some t \<Rightarrow> (True, s\<lparr>pending := drop advance (pending s), token := t\<rparr>)
         | None \<Rightarrow>
             if atEOF then (False, s\<lparr>token := [], err := src_error s\<rparr>)
             else (False, s\<lparr>token := [], err := Some ErrTooLong\<rparr>))"

subsection \<open>The line-delimited record parser\<close>

text \<open>Every successful \<open>Scan\<close> consumes input, so a scan loop ends.\<close>

lemma Scan_shortens:
  "fst (Scan s) \<Longrightarrow> length (pending (snd (Scan s))) < length (pending s)"
  by (auto simp: Scan_def ScanLines_def Let_def MaxScanTokenSize_def
      split: if_splits prod.splits option.splits)

text \<open>
  The loop \<^verbatim>\<open>for s.Scan() { ... }\<close> of \<^verbatim>\<open>(*RDJSONLParser).Parse\<close>. \<open>Unmarshal\<close> is
  \<^verbatim>\<open>json.Unmarshal(s.Bytes(), d)\<close> into a new \<^verbatim>\<open>rdf.Diagnostic\<close>: its error, or the value
  it filled. The loop never reads \<^verbatim>\<open>s.Err()\<close>.
\<close>

function RDJSONLParser_loop ::
  "(string \<Rightarrow> string + Diagnostic) \<Rightarrow> Scanner \<Rightarrow> CheckResult list \<Rightarrow> error + CheckResult list" where
  "RDJSONLParser_loop Unmarshal s results =
     (if fst (Scan s) then
        (case Unmarshal (token (snd (Scan s))) of
           Inl msg \<Rightarrow> Inl (DecodeError msg)
         | Inr d \<Rightarrow>
             RDJSONLParser_loop Unmarshal (snd (Scan s))
               (results @ [\<lparr>Diagnostic = d, CheckResult.Lines = [token (snd (Scan s))]\<rparr>]))
      else Inr results)"
  by pat_completeness auto
termination
  by (relation "measure (\<lambda>(Unmarshal, s, results). length (pending s))")
    (simp_all add: Scan_shortens)

declare RDJSONLParser_loop.simps [simp del]

definition RDJSONLParser_Parse ::
  "(string \<Rightarrow> string + Diagnostic) \<Rightarrow> Reader \<Rightarrow> error + CheckResult list" where
  "RDJSONLParser_Parse Unmarshal r = RDJSONLParser_loop Unmarshal (NewScanner r) []"

text \<open>
  Two notions to state what the loop does: the tokens a scan loop
  \<^verbatim>\<open>for s.Scan() { ... s.Text() ... }\<close> visits, and the loop's body run over a list of
  lines.
\<close>

function Scanner_tokens :: "Scanner \<Rightarrow> string list" where
  "Scanner_tokens s =
     (if fst (Scan s) then token (snd (Scan s)) # Scanner_tokens (snd (Scan s)) else [])"
  by pat_completeness auto
termination
  by (relation "measure (\<lambda>s. length (pending s))") (simp_all add: Scan_shortens)

declare Scanner_tokens.simps [simp del]

fun decode_lines ::
  "(string \<Rightarrow> string + Diagnostic) \<Rightarrow> string list \<Rightarrow> CheckResult list \<Rightarrow>
     error + CheckResult list" where
  "decode_lines Unmarshal [] results = Inr results"
| "decode_lines Unmarshal (l # ls) results =
     (case Unmarshal l of
        Inl msg \<Rightarrow> Inl (DecodeError msg)
      | Inr d \<Rightarrow>
          decode_lines Unmarshal ls (results @ [\<lparr>Diagnostic = d, CheckResult.Lines = [l]\<rparr>]))"

subsection \<open>The factory: configuration conflicts\<close>

text \<open>
  C3. When \<open>FormatName\<close> is a non-empty string and \<open>Errorformat\<close> a non-empty list,
  \<open>NewParser\<close> fails with \<open>ConfigurationConflict\<close> and builds no parser, whatever the two
  values, the catalog and the compiler are.
\<close>

theorem NewParser_conflict:
  assumes "FormatName opt \<noteq> []" and "Errorformat opt \<noteq> []"
  shows "fst (NewParser DefinedFmts NewErrorformat opt) = Inl ConfigurationConflict"
  using assms by (simp add: NewParser_def)

text \<open>A built-in format name together with one pattern rule.\<close>

theorem NewParser_conflict_witness:
  "FormatName \<lparr>FormatName = ''checkstyle'', Errorformat = [''%f:%l:%c: %m'']\<rparr> \<noteq> []
   \<and> Errorformat \<lparr>FormatName = ''checkstyle'', Errorformat = [''%f:%l:%c: %m'']\<rparr> \<noteq> []
   \<and> fst (NewParser Map.empty (\<lambda>efms. Inl ''unused'')
          \<lparr>FormatName = ''checkstyle'', Errorformat = [''%f:%l:%c: %m'']\<rparr>)
       = Inl ConfigurationConflict"
  using NewParser_conflict
    [of "\<lparr>FormatName = ''checkstyle'', Errorformat = [''%f:%l:%c: %m'']\<rparr>"
        Map.empty "\<lambda>efms. Inl ''unused''"]
  by simp

text \<open>
  The option after the call. A name found in the catalog overwrites \<open>Errorformat\<close>.
\<close>

lemma NewParser_FormatName:
  "FormatName (snd (NewParser DefinedFmts NewErrorformat opt)) = FormatName opt"
  by (simp add: NewParser_def Let_def split: option.split)

lemma NewParser_Errorformat:
  "Errorformat (snd (NewParser DefinedFmts NewErrorformat opt)) =
     (if FormatName opt \<noteq> [] \<and> Errorformat opt = [] \<and>
         FormatName opt \<noteq> ''checkstyle'' \<and> FormatName opt \<noteq> ''rdjsonl''
      then (case DefinedFmts (FormatName opt) of
              None \<Rightarrow> Errorformat opt
            | Some efms \<Rightarrow> efms)
      else Errorformat opt)"
  by (simp add: NewParser_def Let_def split: option.split)

text \<open>
  C9, as the code has it. \<open>NewParser\<close> never changes \<open>FormatName\<close>. It leaves
  \<open>Errorformat\<close> as it was, except when \<open>FormatName\<close> is a non-empty name other than
  the two built-in ones, \<open>Errorformat\<close> is empty and the catalog has the name: then
  \<open>Errorformat\<close> holds the catalog's pattern rules after the call (line 44).
\<close>

theorem NewParser_option_after:
  "FormatName (snd (NewParser DefinedFmts NewErrorformat opt)) = FormatName opt \<and>
   Errorformat (snd (NewParser DefinedFmts NewErrorformat opt)) =
     (if FormatName opt \<noteq> [] \<and> Errorformat opt = [] \<and>
         FormatName opt \<noteq> ''checkstyle'' \<and> FormatName opt \<noteq> ''rdjsonl''
      then (case DefinedFmts (FormatName opt) of
              None \<Rightarrow> Errorformat opt
            | Some efms \<Rightarrow> efms)
      else Errorformat opt)"
  using NewParser_FormatName NewParser_Errorformat by blast

text \<open>
  C9 as stated fails: with the catalog entry \<^verbatim>\<open>golint\<close> and the option
  \<^verbatim>\<open>{FormatName: "golint"}\<close>, the call succeeds and leaves the catalog's rules in the
  caller's \<open>Errorformat\<close>, which was empty before.
\<close>

theorem NewParser_overwrites_Errorformat:
  "Errorformat \<lparr>FormatName = ''golint'', Errorformat = []\<rparr> = [] \<and>
   Errorformat (snd (NewParser [''golint'' \<mapsto> [''%f:%l:%c: %m'']] (\<lambda>efms. Inr (\<lambda>r. []))
                      \<lparr>FormatName = ''golint'', Errorformat = []\<rparr>))
     = [''%f:%l:%c: %m'']"
  by (simp add: NewParser_def)

text \<open>
  A consequence: the option a successful call leaves behind is one \<open>NewParser\<close> itself
  refuses.
\<close>

lemma NewParser_second_call:
  "fst (NewParser [''golint'' \<mapsto> [''%f:%l:%c: %m'']] (\<lambda>efms. Inr (\<lambda>r. []))
          (snd (NewParser [''golint'' \<mapsto> [''%f:%l:%c: %m'']] (\<lambda>efms. Inr (\<lambda>r. []))
                  \<lparr>FormatName = ''golint'', Errorformat = []\<rparr>)))
     = Inl ConfigurationConflict"
  by (simp add: NewParser_def)

subsection \<open>The conversion to \<^verbatim>\<open>int32\<close>\<close>

text \<open>A value in the range of \<^verbatim>\<open>int32\<close> is kept by the conversion.\<close>

lemma to_int32_in_range:
  "- (2 ^ 31) \<le> sint x \<Longrightarrow> sint x < 2 ^ 31 \<Longrightarrow> sint (to_int32 x) = sint x"
  by (simp add: to_int32_def signed_scast_eq signed_take_bit_int_eq_self)

subsection \<open>The pattern-rule scanner adapter: results\<close>

text \<open>The loop appends one result for every valid entry and skips the others.\<close>

lemma ErrorformatParser_loop_eq:
  "ErrorformatParser_loop es rs =
     rs @ map (\<lambda>e. \<lparr>Diagnostic =
                    \<lparr>Location = Some
                       \<lparr>Path = Filename e,
                        Range = Some
                          \<lparr>Start = Some \<lparr>Position.Line = to_int32 (Lnum e),
                                         Position.Column = to_int32 (Col e)\<rparr>,
                           End = None\<rparr>\<rparr>,
                     Diagnostic.Message = Text e\<rparr>,
                  CheckResult.Lines = Entry.Lines e\<rparr>) (filter Valid es)"
  by (induction es arbitrary: rs) simp_all

text \<open>
  C5, as the code has it. For every reader and every sequence of entries the engine
  yields, \<open>Parse\<close> returns exactly one result for each entry whose \<open>Valid\<close> flag is true,
  in scan order, and none for the others: \<open>Path\<close> is \<open>Filename\<close>, \<open>Message\<close> is \<open>Text\<close>,
  \<open>Lines\<close> are the entry's lines, and \<open>Start.Line\<close> and \<open>Start.Column\<close> are \<open>Lnum\<close> and
  \<open>Col\<close> converted to \<^verbatim>\<open>int32\<close>. The conversion keeps every value from \<open>-2^31\<close> up to
  \<open>2^31 - 1\<close>.
\<close>

theorem ErrorformatParser_Parse_entries:
  "ErrorformatParser_Parse engine r =
     Inr (map (\<lambda>e. \<lparr>Diagnostic =
                    \<lparr>Location = Some
                       \<lparr>Path = Filename e,
                        Range = Some
                          \<lparr>Start = Some \<lparr>Position.Line = to_int32 (Lnum e),
                                         Position.Column = to_int32 (Col e)\<rparr>,
                           End = None\<rparr>\<rparr>,
                     Diagnostic.Message = Text e\<rparr>,
                  CheckResult.Lines = Entry.Lines e\<rparr>) (filter Valid (engine r)))
   \<and> (\<forall>x. - (2 ^ 31) \<le> sint x \<and> sint x < 2 ^ 31 \<longrightarrow> sint (to_int32 x) = sint x)"
  by (simp add: ErrorformatParser_Parse_def ErrorformatParser_loop_eq to_int32_in_range)

text \<open>
  The rule \<^verbatim>\<open>%f:%l:%c: %m\<close> on the line \<^verbatim>\<open>main.go:10:2: missing return\<close>, followed by a
  line that matches no rule.
\<close>

theorem ErrorformatParser_Parse_entries_witness:
  "ErrorformatParser_Parse
     (\<lambda>r. [\<lparr>Filename = ''main.go'', Lnum = 10, Col = 2, Text = ''missing return'',
             Valid = True, Entry.Lines = [''main.go:10:2: missing return'']\<rparr>,
           \<lparr>Filename = [], Lnum = 0, Col = 0, Text = [],
             Valid = False, Entry.Lines = [''ok  pkg 0.01s'']\<rparr>])
     \<lparr>stream = ''main.go:10:2: missing return'' @ [LF] @ ''ok  pkg 0.01s'' @ [LF],
      read_error = None\<rparr>
   = Inr [\<lparr>Diagnostic =
             \<lparr>Location = Some
                \<lparr>Path = ''main.go'',
                 Range = Some \<lparr>Start = Some \<lparr>Position.Line = 10, Position.Column = 2\<rparr>,
                              End = None\<rparr>\<rparr>,
              Diagnostic.Message = ''missing return''\<rparr>,
           CheckResult.Lines = [''main.go:10:2: missing return'']\<rparr>]
   \<and> - (2 ^ 31) \<le> sint (10 :: go_int) \<and> sint (10 :: go_int) < 2 ^ 31
   \<and> sint (to_int32 10) = sint (10 :: go_int)"
proof -
  let ?engine = "\<lambda>r :: Reader.
      [\<lparr>Filename = ''main.go'', Lnum = 10, Col = 2, Text = ''missing return'',
             Valid = True, Entry.Lines = [''main.go:10:2: missing return'']\<rparr>,
           \<lparr>Filename = [], Lnum = 0, Col = 0, Text = [],
             Valid = False, Entry.Lines = [''ok  pkg 0.01s'']\<rparr>]"
  let ?r = "\<lparr>stream = ''main.go:10:2: missing return'' @ [LF] @ ''ok  pkg 0.01s'' @ [LF],
      read_error = None\<rparr>"
  have range: "- (2 ^ 31) \<le> sint (10 :: go_int) \<and> sint (10 :: go_int) < 2 ^ 31"
    by simp
  have ten: "to_int32 10 = 10" and two: "to_int32 2 = 2"
    by (simp_all add: to_int32_def)
  from ErrorformatParser_Parse_entries [of ?engine ?r] range ten two
  show ?thesis by simp
qed

text \<open>
  C5 as stated fails where \<open>Lnum\<close> does not fit \<^verbatim>\<open>int32\<close>: for the line number
  4294967299 (\<open>2^32 + 3\<close>), \<open>Start.Line\<close> is 3.
\<close>

theorem ErrorformatParser_Parse_wraps_Lnum:
  "ErrorformatParser_Parse
     (\<lambda>r. [\<lparr>Filename = ''main.go'', Lnum = 4294967299, Col = 2, Text = ''missing return'',
             Valid = True, Entry.Lines = [''main.go:4294967299:2: missing return'']\<rparr>])
     \<lparr>stream = ''main.go:4294967299:2: missing return'' @ [LF], read_error = None\<rparr>
   = Inr [\<lparr>Diagnostic =
             \<lparr>Location = Some
                \<lparr>Path = ''main.go'',
                 Range = Some \<lparr>Start = Some \<lparr>Position.Line = 3, Position.Column = 2\<rparr>,
                              End = None\<rparr>\<rparr>,
              Diagnostic.Message = ''missing return''\<rparr>,
           CheckResult.Lines = [''main.go:4294967299:2: missing return'']\<rparr>]
   \<and> sint (3 :: int32) \<noteq> sint (4294967299 :: go_int)"
  by (simp add: ErrorformatParser_Parse_def to_int32_def)

text \<open>
  C6. For every engine and every reader, one that ends in a read error included,
  \<open>Parse\<close> returns its results with a \<^verbatim>\<open>nil\<close> error; when no entry is valid the result
  is the empty sequence.
\<close>

theorem ErrorformatParser_Parse_nil_error:
  "(\<exists>rs. ErrorformatParser_Parse engine r = Inr rs) \<and>
   (filter Valid (engine r) = [] \<longrightarrow> ErrorformatParser_Parse engine r = Inr [])"
  by (simp add: ErrorformatParser_Parse_def ErrorformatParser_loop_eq)

text \<open>A stream that ends in a read error and holds no matching line.\<close>

theorem ErrorformatParser_Parse_nil_error_witness:
  "(\<exists>rs. ErrorformatParser_Parse
           (\<lambda>r. [\<lparr>Filename = [], Lnum = 0, Col = 0, Text = [], Valid = False,
                   Entry.Lines = [''no match here'']\<rparr>])
           \<lparr>stream = ''no match here'', read_error = Some ''unexpected EOF''\<rparr> = Inr rs) \<and>
   filter Valid [\<lparr>Filename = [], Lnum = 0, Col = 0, Text = [], Valid = False,
                   Entry.Lines = [''no match here'']\<rparr>] = [] \<and>
   ErrorformatParser_Parse
           (\<lambda>r. [\<lparr>Filename = [], Lnum = 0, Col = 0, Text = [], Valid = False,
                   Entry.Lines = [''no match here'']\<rparr>])
           \<lparr>stream = ''no match here'', read_error = Some ''unexpected EOF''\<rparr> = Inr []"
  using ErrorformatParser_Parse_nil_error
    [of "\<lambda>r. [\<lparr>Filename = [], Lnum = 0, Col = 0, Text = [], Valid = False,
                   Entry.Lines = [''no match here'']\<rparr>]"
        "\<lparr>stream = ''no match here'', read_error = Some ''unexpected EOF''\<rparr>"]
  by simp

subsection \<open>The structured-markup parser: results\<close>

text \<open>
  The inner loop appends one result for every error of the file, the outer loop the
  results of every file, both in order.
\<close>

lemma CheckStyle_errors_loop_eq:
  "CheckStyle_errors_loop file cerrs rs =
     rs @ map (\<lambda>cerr.
         \<lparr>Diagnostic =
            \<lparr>Location = Some
               \<lparr>Path = Name file,
                Range = Some
                  \<lparr>Start = Some
                     \<lparr>Position.Line = to_int32 (CheckStyleError.Line cerr),
                      Position.Column = to_int32 (CheckStyleError.Column cerr)\<rparr>,
                   End = None\<rparr>\<rparr>,
             Diagnostic.Message = CheckStyleError.Message cerr\<rparr>,
          CheckResult.Lines =
            [Name file @ '':'' @ fmt_d (CheckStyleError.Line cerr) @ '':'' @
             fmt_d (CheckStyleError.Column cerr) @ '': '' @ Severity cerr @ '': '' @
             CheckStyleError.Message cerr @ '' ('' @ Source cerr @ '')'']\<rparr>) cerrs"
  by (induction cerrs arbitrary: rs) (simp_all add: Sprintf_line_def)

lemma CheckStyle_files_loop_eq:
  "CheckStyle_files_loop files rs =
     rs @ concat (map (\<lambda>file. CheckStyle_errors_loop file (Errors file) []) files)"
proof (induction files arbitrary: rs)
  case Nil
  show ?case by simp
next
  case (Cons f fs)
  have "CheckStyle_errors_loop f (Errors f) rs =
        rs @ CheckStyle_errors_loop f (Errors f) []"
    by (simp add: CheckStyle_errors_loop_eq)
  with Cons show ?case by simp
qed

text \<open>
  C1, as the code has it. When the markup decodes to N files with Mi errors in file i,
  \<open>Parse\<close> returns exactly the sum of the Mi results, in file-then-error document
  order. Each has \<open>Path\<close> equal to the name of its file, \<open>Message\<close> equal to the error's
  message, \<open>Start.Line\<close> and \<open>Start.Column\<close> equal to the error's line and column converted
  to \<^verbatim>\<open>int32\<close>, and \<open>Lines\<close> equal to the single string
  \<^verbatim>\<open>path:line:col: severity: message (source)\<close>, line and column in decimal. The
  conversion keeps every value from \<open>-2^31\<close> up to \<open>2^31 - 1\<close>.
\<close>

theorem CheckStyleParser_Parse_results:
  assumes "Decode r = Inr cs"
  shows "\<exists>rs. CheckStyleParser_Parse Decode r = Inr rs
     \<and> length rs = sum_list (map (\<lambda>file. length (Errors file)) (Files cs))
     \<and> rs = concat (map (\<lambda>file. map (\<lambda>cerr.
         \<lparr>Diagnostic =
            \<lparr>Location = Some
               \<lparr>Path = Name file,
                Range = Some
                  \<lparr>Start = Some
                     \<lparr>Position.Line = to_int32 (CheckStyleError.Line cerr),
                      Position.Column = to_int32 (CheckStyleError.Column cerr)\<rparr>,
                   End = None\<rparr>\<rparr>,
             Diagnostic.Message = CheckStyleError.Message cerr\<rparr>,
          CheckResult.Lines =
            [Name file @ '':'' @ fmt_d (CheckStyleError.Line cerr) @ '':'' @
             fmt_d (CheckStyleError.Column cerr) @ '': '' @ Severity cerr @ '': '' @
             CheckStyleError.Message cerr @ '' ('' @ Source cerr @ '')'']\<rparr>)
           (Errors file)) (Files cs))
     \<and> (\<forall>x. - (2 ^ 31) \<le> sint x \<and> sint x < 2 ^ 31 \<longrightarrow> sint (to_int32 x) = sint x)"
proof -
  have "length (concat (map (\<lambda>file. CheckStyle_errors_loop file (Errors file) []) (Files cs)))
        = sum_list (map (\<lambda>file. length (Errors file)) (Files cs))"
    by (simp add: length_concat CheckStyle_errors_loop_eq comp_def)
  with assms show ?thesis
    by (simp add: CheckStyleParser_Parse_def CheckStyle_files_loop_eq
        CheckStyle_errors_loop_eq to_int32_in_range)
qed

text \<open>
  The example of the specification:
  \<^verbatim>\<open><checkstyle><file name="a.go"><error line="3" column="5" severity="error"
  message="unused var" source="lint/unused"/></file></checkstyle>\<close>.
\<close>

theorem CheckStyleParser_Parse_results_witness:
  "CheckStyleParser_Parse
       (\<lambda>r. Inr \<lparr>Version = ''4.3'',
        Files = [\<lparr>Name = ''a.go'',
                  Errors = [\<lparr>Column = 5, Line = 3, Message = ''unused var'',
                             Severity = ''error'', Source = ''lint/unused''\<rparr>]\<rparr>]\<rparr>)
       \<lparr>stream = ''<checkstyle><file name=\"a.go\"><error line=\"3\" column=\"5\" severity=\"error\" '' @
                 ''message=\"unused var\" source=\"lint/unused\"/></file></checkstyle>'',
        read_error = None\<rparr>
     = Inr [\<lparr>Diagnostic =
               \<lparr>Location = Some
                  \<lparr>Path = ''a.go'',
                   Range = Some \<lparr>Start = Some \<lparr>Position.Line = 3, Position.Column = 5\<rparr>,
                                End = None\<rparr>\<rparr>,
                Diagnostic.Message = ''unused var''\<rparr>,
             CheckResult.Lines = [''a.go:3:5: error: unused var (lint/unused)'']\<rparr>]
   \<and> - (2 ^ 31) \<le> sint (3 :: go_int) \<and> sint (3 :: go_int) < 2 ^ 31
   \<and> sint (to_int32 3) = sint (3 :: go_int)"
proof -
  let ?cs = "\<lparr>Version = ''4.3'',
        Files = [\<lparr>Name = ''a.go'',
                  Errors = [\<lparr>Column = 5, Line = 3, Message = ''unused var'',
                             Severity = ''error'', Source = ''lint/unused''\<rparr>]\<rparr>]\<rparr>"
  let ?r = "\<lparr>stream = ''<checkstyle><file name=\"a.go\"><error line=\"3\" column=\"5\" severity=\"error\" '' @
                 ''message=\"unused var\" source=\"lint/unused\"/></file></checkstyle>'',
        read_error = None\<rparr>"
  have dec: "(\<lambda>r :: Reader. Inr ?cs :: string + CheckStyleResult) ?r = Inr ?cs"
    by simp
  have vals: "to_int32 3 = 3" "to_int32 5 = 5" "fmt_d 3 = ''3''" "fmt_d 5 = ''5''"
    by (simp_all add: to_int32_def fmt_d_def decimal.simps digit_char_def)
  from CheckStyleParser_Parse_results [OF dec] vals
  show ?thesis by simp
qed

text \<open>
  C1 as stated fails where a line or column attribute does not fit \<^verbatim>\<open>int32\<close>: for
  \<^verbatim>\<open>line="4294967299"\<close>, which decodes into the 64-bit \<^verbatim>\<open>int\<close> field, \<open>Start.Line\<close> is 3,
  while \<open>Lines\<close> prints 4294967299.
\<close>

theorem CheckStyleParser_Parse_wraps_Line:
  "CheckStyleParser_Parse
       (\<lambda>r. Inr \<lparr>Version = ''4.3'',
        Files = [\<lparr>Name = ''a.go'',
                  Errors = [\<lparr>Column = 5, Line = 4294967299, Message = ''unused var'',
                             Severity = ''error'', Source = ''lint/unused''\<rparr>]\<rparr>]\<rparr>)
       \<lparr>stream = ''<checkstyle><file name=\"a.go\"><error line=\"4294967299\" column=\"5\" severity=\"error\" '' @
                 ''message=\"unused var\" source=\"lint/unused\"/></file></checkstyle>'',
        read_error = None\<rparr>
     = Inr [\<lparr>Diagnostic =
               \<lparr>Location = Some
                  \<lparr>Path = ''a.go'',
                   Range = Some \<lparr>Start = Some \<lparr>Position.Line = 3, Position.Column = 5\<rparr>,
                                End = None\<rparr>\<rparr>,
                Diagnostic.Message = ''unused var''\<rparr>,
             CheckResult.Lines = [''a.go:4294967299:5: error: unused var (lint/unused)'']\<rparr>]
   \<and> sint (3 :: int32) \<noteq> sint (4294967299 :: go_int)"
  by (simp add: CheckStyleParser_Parse_def to_int32_def Sprintf_line_def fmt_d_def
      decimal.simps digit_char_def)

subsection \<open>The line scanner: single steps\<close>

text \<open>
  What \<open>Scan\<close> does on a line that ends in a newline, on a last line without one, at
  the end of the input, and on a line that does not fit the buffer.
\<close>

lemma ScanLines_line:
  assumes "LF \<notin> set l"
  shows "ScanLines (l @ LF # rest) atEOF = (length l + 1, Some (dropCR l))"
proof -
  have "takeWhile (\<lambda>c. c \<noteq> LF) (l @ LF # rest) = l"
    using assms by (auto simp: takeWhile_tail)
  then show ?thesis
    by (simp add: ScanLines_def)
qed

lemma Scan_line:
  assumes "pending s = l @ LF # rest" and "LF \<notin> set l" and "length l < MaxScanTokenSize"
  shows "Scan s = (True, s\<lparr>pending := rest, token := dropCR l\<rparr>)"
proof -
  have "take MaxScanTokenSize (pending s)
        = l @ LF # take (MaxScanTokenSize - Suc (length l)) rest"
    using assms(1,3) by (simp add: take_Cons')
  then show ?thesis
    using assms(1,2) by (simp add: Scan_def ScanLines_line)
qed

lemma Scan_last_line:
  assumes "pending s = l" and "LF \<notin> set l" and "l \<noteq> []" and "length l < MaxScanTokenSize"
  shows "Scan s = (True, s\<lparr>pending := [], token := dropCR l\<rparr>)"
  using assms by (simp add: Scan_def ScanLines_def)

lemma Scan_end:
  assumes "pending s = []"
  shows "Scan s = (False, s\<lparr>token := [], err := src_error s\<rparr>)"
  using assms by (simp add: Scan_def ScanLines_def MaxScanTokenSize_def)

lemma Scan_too_long:
  assumes "pending s = l @ rest" and "LF \<notin> set l" and "MaxScanTokenSize \<le> length l"
  shows "Scan s = (False, s\<lparr>token := [], err := Some ErrTooLong\<rparr>)"
proof -
  have "take MaxScanTokenSize (pending s) = take MaxScanTokenSize l"
    using assms(1,3) by simp
  moreover have "LF \<notin> set (take MaxScanTokenSize l)"
    using assms(2) by (meson in_set_takeD)
  moreover have "\<not> length (pending s) < MaxScanTokenSize"
    using assms(1,3) by simp
  ultimately show ?thesis
    by (simp add: Scan_def ScanLines_def)
qed

subsection \<open>The line scanner: the tokens of an input\<close>

text \<open>
  The parse loop is its body run over the scanner's tokens, and for an input made of
  lines the tokens are the lines, however the reader ends.
\<close>

lemma RDJSONLParser_loop_tokens:
  "RDJSONLParser_loop Unmarshal s results = decode_lines Unmarshal (Scanner_tokens s) results"
proof (induction Unmarshal s results rule: RDJSONLParser_loop.induct)
  case (1 Unmarshal s results)
  show ?case
  proof (cases "fst (Scan s)")
    case False
    then show ?thesis
      by (simp add: RDJSONLParser_loop.simps [of Unmarshal s] Scanner_tokens.simps [of s])
  next
    case True
    show ?thesis
    proof (cases "Unmarshal (token (snd (Scan s)))")
      case (Inl msg)
      with True show ?thesis
        by (simp add: RDJSONLParser_loop.simps [of Unmarshal s] Scanner_tokens.simps [of s])
    next
      case (Inr d)
      with True "1.IH" [OF True Inr] show ?thesis
        by (simp add: RDJSONLParser_loop.simps [of Unmarshal s] Scanner_tokens.simps [of s])
    qed
  qed
qed

lemma Scanner_tokens_lines:
  assumes "\<forall>l\<in>set ls. LF \<notin> set l \<and> length l < MaxScanTokenSize"
    and "pending s = concat (map (\<lambda>l. l @ [LF]) ls)"
  shows "Scanner_tokens s = map dropCR ls"
  using assms
proof (induction ls arbitrary: s)
  case Nil
  then show ?case
    by (simp add: Scanner_tokens.simps [of s] Scan_end)
next
  case (Cons l ls)
  let ?s' = "s\<lparr>pending := concat (map (\<lambda>l. l @ [LF]) ls), token := dropCR l\<rparr>"
  have step: "Scan s = (True, ?s')"
    using Cons.prems by (intro Scan_line) simp_all
  have "Scanner_tokens ?s' = map dropCR ls"
    using Cons.prems by (intro Cons.IH) simp_all
  with step show ?case
    by (simp add: Scanner_tokens.simps [of s])
qed

lemma Scanner_tokens_last_line:
  assumes "\<forall>l\<in>set ls. LF \<notin> set l \<and> length l < MaxScanTokenSize"
    and "LF \<notin> set l'" and "length l' < MaxScanTokenSize" and "l' \<noteq> []"
    and "pending s = concat (map (\<lambda>l. l @ [LF]) ls) @ l'"
  shows "Scanner_tokens s = map dropCR (ls @ [l'])"
  using assms
proof (induction ls arbitrary: s)
  case Nil
  let ?s' = "s\<lparr>pending := [], token := dropCR l'\<rparr>"
  have step: "Scan s = (True, ?s')"
    using Nil.prems by (intro Scan_last_line) simp_all
  have "Scanner_tokens ?s' = []"
    by (simp add: Scanner_tokens.simps [of ?s'] Scan_end)
  with step show ?case
    by (simp add: Scanner_tokens.simps [of s])
next
  case (Cons l ls)
  let ?s' = "s\<lparr>pending := concat (map (\<lambda>l. l @ [LF]) ls) @ l', token := dropCR l\<rparr>"
  have step: "Scan s = (True, ?s')"
    using Cons.prems by (intro Scan_line) simp_all
  have "Scanner_tokens ?s' = map dropCR (ls @ [l'])"
    using Cons.prems by (intro Cons.IH) simp_all
  with step show ?case
    by (simp add: Scanner_tokens.simps [of s])
qed

lemma Scanner_tokens_too_long:
  assumes "\<forall>l\<in>set ls. LF \<notin> set l \<and> length l < MaxScanTokenSize"
    and "LF \<notin> set l'" and "MaxScanTokenSize \<le> length l'"
    and "pending s = concat (map (\<lambda>l. l @ [LF]) ls) @ l' @ rest"
  shows "Scanner_tokens s = map dropCR ls"
  using assms
proof (induction ls arbitrary: s)
  case Nil
  then have "Scan s = (False, s\<lparr>token := [], err := Some ErrTooLong\<rparr>)"
    by (intro Scan_too_long [where l = l' and rest = rest]) simp_all
  then show ?case
    by (simp add: Scanner_tokens.simps [of s])
next
  case (Cons l ls)
  let ?s' = "s\<lparr>pending := concat (map (\<lambda>l. l @ [LF]) ls) @ l' @ rest, token := dropCR l\<rparr>"
  have step: "Scan s = (True, ?s')"
    using Cons.prems by (intro Scan_line) simp_all
  have "Scanner_tokens ?s' = map dropCR ls"
    using Cons.prems by (intro Cons.IH) simp_all
  with step show ?case
    by (simp add: Scanner_tokens.simps [of s])
qed

lemma Scanner_tokens_prefix:
  assumes "\<forall>l\<in>set ls. LF \<notin> set l \<and> length l < MaxScanTokenSize"
    and "pending s = concat (map (\<lambda>l. l @ [LF]) ls) @ rest"
  shows "\<exists>ts. Scanner_tokens s = map dropCR ls @ ts"
  using assms
proof (induction ls arbitrary: s)
  case Nil
  show ?case by simp
next
  case (Cons l ls)
  let ?s' = "s\<lparr>pending := concat (map (\<lambda>l. l @ [LF]) ls) @ rest, token := dropCR l\<rparr>"
  have step: "Scan s = (True, ?s')"
    using Cons.prems by (intro Scan_line) simp_all
  have "\<exists>ts. Scanner_tokens ?s' = map dropCR ls @ ts"
    using Cons.prems by (intro Cons.IH) simp_all
  with step show ?case
    by (simp add: Scanner_tokens.simps [of s])
qed

lemma Scanner_tokens_of_lines:
  assumes "\<forall>l\<in>set ls. LF \<notin> set l \<and> length l < MaxScanTokenSize"
    and "pending s = concat (map (\<lambda>l. l @ [LF]) ls) \<or>
         (ls \<noteq> [] \<and> last ls \<noteq> [] \<and>
          pending s = concat (map (\<lambda>l. l @ [LF]) (butlast ls)) @ last ls)"
  shows "Scanner_tokens s = map dropCR ls"
  using assms(2)
proof
  assume "pending s = concat (map (\<lambda>l. l @ [LF]) ls)"
  with assms(1) show ?thesis
    by (rule Scanner_tokens_lines)
next
  assume last: "ls \<noteq> [] \<and> last ls \<noteq> [] \<and>
          pending s = concat (map (\<lambda>l. l @ [LF]) (butlast ls)) @ last ls"
  then have split: "butlast ls @ [last ls] = ls"
    by simp
  have "\<forall>l\<in>set (butlast ls). LF \<notin> set l \<and> length l < MaxScanTokenSize"
    using assms(1) by (auto dest: in_set_butlastD)
  moreover have "LF \<notin> set (last ls)" "length (last ls) < MaxScanTokenSize"
    using assms(1) last by simp_all
  ultimately have "Scanner_tokens s = map dropCR (butlast ls @ [last ls])"
    using last by (intro Scanner_tokens_last_line) simp_all
  with split show ?thesis
    by simp
qed

lemma RDJSONLParser_Parse_tokens:
  "RDJSONLParser_Parse Unmarshal r =
     decode_lines Unmarshal (Scanner_tokens (NewScanner r)) []"
  by (simp add: RDJSONLParser_Parse_def RDJSONLParser_loop_tokens)

subsection \<open>The loop body over a list of lines\<close>

lemma decode_lines_failure:
  assumes "\<exists>l\<in>set ls. isl (Unmarshal l)"
  shows "\<exists>l\<in>set ls. \<exists>msg. Unmarshal l = Inl msg \<and>
           decode_lines Unmarshal ls results = Inl (DecodeError msg)"
  using assms
proof (induction ls arbitrary: results)
  case Nil
  then show ?case by simp
next
  case (Cons l ls)
  show ?case
  proof (cases "Unmarshal l")
    case (Inl msg)
    then show ?thesis by simp
  next
    case (Inr d)
    with Cons.prems have "\<exists>l\<in>set ls. isl (Unmarshal l)" by auto
    from Cons.IH [OF this, of "results @ [\<lparr>Diagnostic = d, CheckResult.Lines = [l]\<rparr>]"] Inr
    show ?thesis by auto
  qed
qed

lemma decode_lines_append_Inl:
  "decode_lines Unmarshal ts results = Inl x \<Longrightarrow>
   decode_lines Unmarshal (ts @ ts') results = Inl x"
proof (induction ts arbitrary: results)
  case Nil
  then show ?case by simp
next
  case (Cons t ts)
  then show ?case
    by (cases "Unmarshal t") simp_all
qed

lemma decode_lines_map_failure:
  assumes "\<exists>l\<in>set ls. isl (Unmarshal (dropCR l))"
  shows "\<exists>l\<in>set ls. \<exists>msg. Unmarshal (dropCR l) = Inl msg \<and>
           decode_lines Unmarshal (map dropCR ls @ ts) [] = Inl (DecodeError msg)"
proof -
  from assms have "\<exists>t\<in>set (map dropCR ls). isl (Unmarshal t)"
    by auto
  from decode_lines_failure [OF this, of "[]"]
  obtain t msg where t: "t \<in> set (map dropCR ls)" "Unmarshal t = Inl msg"
    "decode_lines Unmarshal (map dropCR ls) [] = Inl (DecodeError msg)"
    by blast
  from t(1) obtain l where "l \<in> set ls" "t = dropCR l"
    by auto
  with t(2) decode_lines_append_Inl [OF t(3), of ts] show ?thesis
    by blast
qed

lemma decode_lines_dropCR_ok:
  assumes "\<forall>(l, d)\<in>set lds. Unmarshal (dropCR l) = Inr d"
  shows "decode_lines Unmarshal (map dropCR (map fst lds)) results =
         Inr (results @ map (\<lambda>(l, d). \<lparr>Diagnostic = d, CheckResult.Lines = [dropCR l]\<rparr>) lds)"
  using assms by (induction lds arbitrary: results) auto

lemma concat_lines_fst:
  "concat (map (\<lambda>(l, d). l @ [LF]) lds) = concat (map (\<lambda>l. l @ [LF]) (map fst lds))"
  by (induction lds) auto

lemma decode_lines_projr:
  assumes "\<forall>l\<in>set ls. \<not> isl (Unmarshal l)"
  shows "decode_lines Unmarshal ls results =
           Inr (results @ map (\<lambda>l. \<lparr>Diagnostic = projr (Unmarshal l), CheckResult.Lines = [l]\<rparr>) ls)"
  using assms
proof (induction ls arbitrary: results)
  case Nil
  show ?case by simp
next
  case (Cons l ls)
  then obtain d where "Unmarshal l = Inr d"
    by (cases "Unmarshal l") simp_all
  with Cons show ?case by simp
qed

lemma decode_lines_error:
  assumes "decode_lines Unmarshal ls results = Inl x"
  shows "\<exists>l\<in>set ls. \<exists>msg. Unmarshal l = Inl msg \<and> x = DecodeError msg"
  using assms
proof (induction ls arbitrary: results)
  case Nil
  then show ?case by simp
next
  case (Cons l ls)
  show ?case
  proof (cases "Unmarshal l")
    case (Inl msg)
    with Cons.prems show ?thesis by auto
  next
    case (Inr d)
    with Cons.prems
    have "decode_lines Unmarshal ls (results @ [\<lparr>Diagnostic = d, CheckResult.Lines = [l]\<rparr>]) = Inl x"
      by simp
    from Cons.IH [OF this] show ?thesis by auto
  qed
qed

subsection \<open>The line-delimited record parser: well-formed input\<close>

text \<open>
  C2, as the code has it. Let the input consist of K lines, each ended by a newline
  (the last one, when it is not empty, possibly without), each shorter than
  \<open>MaxScanTokenSize\<close> bytes and, with its end-of-line marker removed (\<open>dropCR\<close>: the
  marker is an optional carriage return and the newline), decoded by \<open>Unmarshal\<close>.
  Then \<open>Parse\<close> returns K results in input order: the decoded value of each line, and
  as \<open>Lines\<close> the line without its marker.
\<close>

theorem RDJSONLParser_Parse_lines:
  assumes "\<forall>(l, d)\<in>set lds.
             LF \<notin> set l \<and> length l < MaxScanTokenSize \<and> Unmarshal (dropCR l) = Inr d"
    and "stream r = concat (map (\<lambda>(l, d). l @ [LF]) lds) \<or>
         (lds \<noteq> [] \<and> fst (last lds) \<noteq> [] \<and>
          stream r = concat (map (\<lambda>(l, d). l @ [LF]) (butlast lds)) @ fst (last lds))"
  shows "RDJSONLParser_Parse Unmarshal r =
           Inr (map (\<lambda>(l, d). \<lparr>Diagnostic = d, CheckResult.Lines = [dropCR l]\<rparr>) lds)"
proof -
  have ok: "\<forall>l\<in>set (map fst lds). LF \<notin> set l \<and> length l < MaxScanTokenSize"
    using assms(1) by auto
  have dec: "\<forall>(l, d)\<in>set lds. Unmarshal (dropCR l) = Inr d"
    using assms(1) by auto
  have "Scanner_tokens (NewScanner r) = map dropCR (map fst lds)"
    using assms(2)
  proof
    assume "stream r = concat (map (\<lambda>(l, d). l @ [LF]) lds)"
    then have "pending (NewScanner r) = concat (map (\<lambda>l. l @ [LF]) (map fst lds))"
      by (simp add: NewScanner_def concat_lines_fst)
    with ok show ?thesis
      by (rule Scanner_tokens_lines)
  next
    assume last: "lds \<noteq> [] \<and> fst (last lds) \<noteq> [] \<and>
          stream r = concat (map (\<lambda>(l, d). l @ [LF]) (butlast lds)) @ fst (last lds)"
    then have "lds = butlast lds @ [last lds]"
      by simp
    then have "map fst lds = map fst (butlast lds @ [last lds])"
      by (rule arg_cong)
    then have split: "map fst lds = map fst (butlast lds) @ [fst (last lds)]"
      by simp
    have ok': "\<forall>l\<in>set (map fst (butlast lds)). LF \<notin> set l \<and> length l < MaxScanTokenSize"
      using ok by (auto dest: in_set_butlastD)
    have lastok: "LF \<notin> set (fst (last lds))" "length (fst (last lds)) < MaxScanTokenSize"
      using ok last by auto
    have "pending (NewScanner r) =
          concat (map (\<lambda>l. l @ [LF]) (map fst (butlast lds))) @ fst (last lds)"
      using last by (simp add: NewScanner_def concat_lines_fst)
    with ok' lastok last
    have "Scanner_tokens (NewScanner r) = map dropCR (map fst (butlast lds) @ [fst (last lds)])"
      by (intro Scanner_tokens_last_line) simp_all
    with split show ?thesis by simp
  qed
  with decode_lines_dropCR_ok [OF dec, of "[]"] show ?thesis
    by (simp add: RDJSONLParser_Parse_tokens)
qed

text \<open>
  Two lines, the first ended by a carriage return and a newline, the second by the end
  of the input.
\<close>

theorem RDJSONLParser_Parse_lines_witness:
  "RDJSONLParser_Parse
     (\<lambda>l. if l = ''{\"message\":\"a\"}'' then Inr \<lparr>Location = None, Diagnostic.Message = ''a''\<rparr>
          else if l = ''{\"message\":\"b\"}'' then Inr \<lparr>Location = None, Diagnostic.Message = ''b''\<rparr>
          else Inl ''unexpected end of JSON input'')
     \<lparr>stream = ''{\"message\":\"a\"}'' @ [CR, LF] @ ''{\"message\":\"b\"}'', read_error = None\<rparr>
   = Inr [\<lparr>Diagnostic = \<lparr>Location = None, Diagnostic.Message = ''a''\<rparr>,
           CheckResult.Lines = [''{\"message\":\"a\"}'']\<rparr>,
          \<lparr>Diagnostic = \<lparr>Location = None, Diagnostic.Message = ''b''\<rparr>,
           CheckResult.Lines = [''{\"message\":\"b\"}'']\<rparr>]"
proof -
  let ?U = "\<lambda>l. if l = ''{\"message\":\"a\"}'' then Inr \<lparr>Location = None, Diagnostic.Message = ''a''\<rparr>
          else if l = ''{\"message\":\"b\"}'' then Inr \<lparr>Location = None, Diagnostic.Message = ''b''\<rparr>
          else Inl ''unexpected end of JSON input''"
  let ?r = "\<lparr>stream = ''{\"message\":\"a\"}'' @ [CR, LF] @ ''{\"message\":\"b\"}'', read_error = None\<rparr>"
  let ?lds = "[(''{\"message\":\"a\"}'' @ [CR], \<lparr>Location = None, Diagnostic.Message = ''a''\<rparr>),
               (''{\"message\":\"b\"}'', \<lparr>Location = None, Diagnostic.Message = ''b''\<rparr>)]"
  have h1: "\<forall>(l, d)\<in>set ?lds.
             LF \<notin> set l \<and> length l < MaxScanTokenSize \<and> ?U (dropCR l) = Inr d"
    by (simp add: LF_def CR_def MaxScanTokenSize_def dropCR_def)
  have h2: "stream ?r = concat (map (\<lambda>(l, d). l @ [LF]) ?lds) \<or>
         (?lds \<noteq> [] \<and> fst (last ?lds) \<noteq> [] \<and>
          stream ?r = concat (map (\<lambda>(l, d). l @ [LF]) (butlast ?lds)) @ fst (last ?lds))"
    by simp
  from RDJSONLParser_Parse_lines [of ?lds ?U ?r, OF h1 h2]
  show ?thesis
    by (simp add: dropCR_def CR_def)
qed

text \<open>
  C2 as stated fails: one well-formed line of 65550 bytes, ended by a newline, gives
  no result and no error, whatever the decoder does. The line does not fit the
  scanner's buffer, \<open>Scan\<close> returns false with \<open>ErrTooLong\<close>, and the loop ends as it does
  at the end of the input.
\<close>

theorem RDJSONLParser_Parse_long_line:
  "\<forall>Unmarshal.
     RDJSONLParser_Parse Unmarshal
       \<lparr>stream = ''{\"message\":\"'' @ replicate 65536 (CHR ''a'') @ ''\"}'' @ [LF],
        read_error = None\<rparr>
     = Inr []"
proof
  fix Unmarshal
  let ?l = "''{\"message\":\"'' @ replicate 65536 (CHR ''a'') @ ''\"}''"
  let ?r = "\<lparr>stream = ?l @ [LF], read_error = None\<rparr>"
  have "Scanner_tokens (NewScanner ?r) = map dropCR []"
  proof (rule Scanner_tokens_too_long [where l' = ?l and rest = "[LF]"])
    show "\<forall>l\<in>set []. LF \<notin> set l \<and> length l < MaxScanTokenSize" by simp
    show "LF \<notin> set ?l" by (simp add: LF_def)
    show "MaxScanTokenSize \<le> length ?l" by (simp add: MaxScanTokenSize_def)
    show "pending (NewScanner ?r) = concat (map (\<lambda>l. l @ [LF]) []) @ ?l @ [LF]"
      by (simp add: NewScanner_def)
  qed
  then have "RDJSONLParser_Parse Unmarshal ?r = Inr []"
    by (simp add: RDJSONLParser_Parse_tokens)
  then show "RDJSONLParser_Parse Unmarshal
       \<lparr>stream = ''{\"message\":\"'' @ replicate 65536 (CHR ''a'') @ ''\"}'' @ [LF],
        read_error = None\<rparr>
     = Inr []"
    by simp
qed

subsection \<open>Decode failures\<close>

text \<open>
  C4, as the code has it. When the markup decoder fails, \<open>CheckStyleParser.Parse\<close>
  returns its error as a \<open>DecodeError\<close> and no results. When the input of
  \<open>RDJSONLParser.Parse\<close> holds a line on which the decoder fails, and that line and
  every line before it are shorter than \<open>MaxScanTokenSize\<close> bytes, \<open>Parse\<close> returns the
  \<open>DecodeError\<close> of a failing line and no results, whatever the other lines are. Here
  \<open>ls\<close> are the lines up to a failing one, each ended by a newline (the last one, when
  it ends the input and is not empty, possibly without), and \<open>rest\<close> is what follows.
\<close>

theorem Parse_decode_failure:
  "(Decode r = Inl msg \<longrightarrow> CheckStyleParser_Parse Decode r = Inl (DecodeError msg)) \<and>
   ((\<forall>l\<in>set ls. LF \<notin> set l \<and> length l < MaxScanTokenSize) \<and>
    (stream r' = concat (map (\<lambda>l. l @ [LF]) ls) @ rest \<or>
     (ls \<noteq> [] \<and> last ls \<noteq> [] \<and>
      stream r' = concat (map (\<lambda>l. l @ [LF]) (butlast ls)) @ last ls)) \<and>
    (\<exists>l\<in>set ls. isl (Unmarshal (dropCR l))) \<longrightarrow>
    (\<exists>l\<in>set ls. \<exists>msg'.
        Unmarshal (dropCR l) = Inl msg' \<and>
        RDJSONLParser_Parse Unmarshal r' = Inl (DecodeError msg')))"
proof (intro conjI impI)
  assume "Decode r = Inl msg"
  then show "CheckStyleParser_Parse Decode r = Inl (DecodeError msg)"
    by (simp add: CheckStyleParser_Parse_def)
next
  assume h: "(\<forall>l\<in>set ls. LF \<notin> set l \<and> length l < MaxScanTokenSize) \<and>
    (stream r' = concat (map (\<lambda>l. l @ [LF]) ls) @ rest \<or>
     (ls \<noteq> [] \<and> last ls \<noteq> [] \<and>
      stream r' = concat (map (\<lambda>l. l @ [LF]) (butlast ls)) @ last ls)) \<and>
    (\<exists>l\<in>set ls. isl (Unmarshal (dropCR l)))"
  then have bounded: "\<forall>l\<in>set ls. LF \<notin> set l \<and> length l < MaxScanTokenSize"
    and fails: "\<exists>l\<in>set ls. isl (Unmarshal (dropCR l))"
    by simp_all
  from h have "stream r' = concat (map (\<lambda>l. l @ [LF]) ls) @ rest \<or>
     (ls \<noteq> [] \<and> last ls \<noteq> [] \<and>
      stream r' = concat (map (\<lambda>l. l @ [LF]) (butlast ls)) @ last ls)"
    by simp
  then have "\<exists>ts. Scanner_tokens (NewScanner r') = map dropCR ls @ ts"
  proof
    assume "stream r' = concat (map (\<lambda>l. l @ [LF]) ls) @ rest"
    with bounded show ?thesis
      by (intro Scanner_tokens_prefix) (simp_all add: NewScanner_def)
  next
    assume "ls \<noteq> [] \<and> last ls \<noteq> [] \<and>
      stream r' = concat (map (\<lambda>l. l @ [LF]) (butlast ls)) @ last ls"
    with bounded have "Scanner_tokens (NewScanner r') = map dropCR ls"
      by (intro Scanner_tokens_of_lines) (simp_all add: NewScanner_def)
    then show ?thesis by simp
  qed
  then obtain ts where "Scanner_tokens (NewScanner r') = map dropCR ls @ ts"
    by blast
  with decode_lines_map_failure [OF fails, of ts]
  show "\<exists>l\<in>set ls. \<exists>msg'.
        Unmarshal (dropCR l) = Inl msg' \<and>
        RDJSONLParser_Parse Unmarshal r' = Inl (DecodeError msg')"
    by (simp add: RDJSONLParser_Parse_tokens)
qed

text \<open>Truncated markup; and a malformed line between two well-formed ones.\<close>

theorem Parse_decode_failure_witness:
  "CheckStyleParser_Parse (\<lambda>r. Inl ''XML syntax error on line 1: unexpected EOF'')
     \<lparr>stream = ''<checkstyle><file name='', read_error = None\<rparr>
     = Inl (DecodeError ''XML syntax error on line 1: unexpected EOF'') \<and>
   RDJSONLParser_Parse
     (\<lambda>l. if l = ''{\"message\":\"a\"}'' then Inr \<lparr>Location = None, Diagnostic.Message = ''a''\<rparr>
          else Inl ''unexpected end of JSON input'')
     \<lparr>stream = concat (map (\<lambda>l. l @ [LF]) [''{\"message\":\"a\"}'', ''{\"message\":'']) @
               ''{\"message\":\"a\"}'' @ [LF],
      read_error = None\<rparr>
     = Inl (DecodeError ''unexpected end of JSON input'')"
proof -
  let ?D = "\<lambda>r :: Reader. Inl ''XML syntax error on line 1: unexpected EOF'' :: string + CheckStyleResult"
  let ?r = "\<lparr>stream = ''<checkstyle><file name='', read_error = None\<rparr>"
  let ?U = "\<lambda>l. if l = ''{\"message\":\"a\"}'' then Inr \<lparr>Location = None, Diagnostic.Message = ''a''\<rparr>
          else Inl ''unexpected end of JSON input''"
  let ?ls = "[''{\"message\":\"a\"}'', ''{\"message\":'']"
  let ?rest = "''{\"message\":\"a\"}'' @ [LF]"
  let ?r' = "\<lparr>stream = concat (map (\<lambda>l. l @ [LF]) ?ls) @ ?rest, read_error = None\<rparr>"
  have h: "(\<forall>l\<in>set ?ls. LF \<notin> set l \<and> length l < MaxScanTokenSize) \<and>
    (stream ?r' = concat (map (\<lambda>l. l @ [LF]) ?ls) @ ?rest \<or>
     (?ls \<noteq> [] \<and> last ?ls \<noteq> [] \<and>
      stream ?r' = concat (map (\<lambda>l. l @ [LF]) (butlast ?ls)) @ last ?ls)) \<and>
    (\<exists>l\<in>set ?ls. isl (?U (dropCR l)))"
    by (simp add: LF_def CR_def MaxScanTokenSize_def dropCR_def)
  from Parse_decode_failure
    [where Decode = ?D and r = ?r and msg = "''XML syntax error on line 1: unexpected EOF''"
       and ls = ?ls and r' = ?r' and rest = ?rest and Unmarshal = ?U] h
  have "CheckStyleParser_Parse ?D ?r = Inl (DecodeError ''XML syntax error on line 1: unexpected EOF'')"
    and "\<exists>l\<in>set ?ls. \<exists>msg'. ?U (dropCR l) = Inl msg' \<and>
        RDJSONLParser_Parse ?U ?r' = Inl (DecodeError msg')"
    by blast+
  then show ?thesis
    by (auto simp: dropCR_def CR_def split: if_splits)
qed

text \<open>
  C4 as stated fails: a malformed line behind a line of 65550 bytes is never decoded.
  \<open>Parse\<close> returns a \<^verbatim>\<open>nil\<close> error whatever the decoder does, with no result when the
  long line comes first, and with the result of the line before the long one
  otherwise.
\<close>

theorem Parse_malformed_line_behind_long_line:
  "(\<forall>Unmarshal.
      RDJSONLParser_Parse Unmarshal
        \<lparr>stream = ''{\"message\":\"'' @ replicate 65536 (CHR ''a'') @ ''\"}'' @ [LF] @
                  ''{\"mess'' @ [LF],
         read_error = None\<rparr>
      = Inr []) \<and>
   (\<forall>Unmarshal.
      RDJSONLParser_Parse Unmarshal
        \<lparr>stream = ''{\"message\":\"b\"}'' @ [LF] @
                  ''{\"message\":\"'' @ replicate 65536 (CHR ''a'') @ ''\"}'' @ [LF] @
                  ''{\"mess'' @ [LF],
         read_error = None\<rparr>
      = (case Unmarshal ''{\"message\":\"b\"}'' of
           Inl msg \<Rightarrow> Inl (DecodeError msg)
         | Inr d \<Rightarrow> Inr [\<lparr>Diagnostic = d, CheckResult.Lines = [''{\"message\":\"b\"}'']\<rparr>]))"
proof -
  let ?long = "''{\"message\":\"'' @ replicate 65536 (CHR ''a'') @ ''\"}''"
  let ?rest = "[LF] @ ''{\"mess'' @ [LF]"
  let ?r1 = "\<lparr>stream = ?long @ ?rest, read_error = None\<rparr>"
  let ?r2 = "\<lparr>stream = ''{\"message\":\"b\"}'' @ [LF] @ ?long @ ?rest, read_error = None\<rparr>"
  have long: "LF \<notin> set ?long" "MaxScanTokenSize \<le> length ?long"
    by (simp_all add: LF_def MaxScanTokenSize_def)
  have t1: "Scanner_tokens (NewScanner ?r1) = map dropCR []"
    using long by (intro Scanner_tokens_too_long [where l' = ?long and rest = ?rest])
      (simp_all add: NewScanner_def)
  have t2: "Scanner_tokens (NewScanner ?r2) = map dropCR [''{\"message\":\"b\"}'']"
    using long by (intro Scanner_tokens_too_long [where l' = ?long and rest = ?rest])
      (simp_all add: NewScanner_def LF_def MaxScanTokenSize_def)
  have a: "RDJSONLParser_Parse Unmarshal ?r1 = Inr []" for Unmarshal
    using t1 by (simp add: RDJSONLParser_Parse_tokens)
  have b: "RDJSONLParser_Parse Unmarshal ?r2
      = (case Unmarshal ''{\"message\":\"b\"}'' of
           Inl msg \<Rightarrow> Inl (DecodeError msg)
         | Inr d \<Rightarrow> Inr [\<lparr>Diagnostic = d, CheckResult.Lines = [''{\"message\":\"b\"}'']\<rparr>])"
    for Unmarshal
    using t2 by (simp add: RDJSONLParser_Parse_tokens dropCR_def CR_def split: sum.split)
  from a b show ?thesis
    by simp
qed

subsection \<open>The line-delimited record parser: a record too long for the buffer\<close>

text \<open>
  The Diagnostic whose message is 70000 bytes long makes a JSON line of 70014 bytes.
  Parsing that line yields no result and no error, whatever the decoder does: a record
  of this size does not come back from the parser.
\<close>

lemma RDJSONLParser_Parse_long_message:
  "\<forall>Unmarshal.
     RDJSONLParser_Parse Unmarshal
       \<lparr>stream = ''{\"message\":\"'' @
                 Diagnostic.Message
                   \<lparr>Location = None, Diagnostic.Message = replicate 70000 (CHR ''x'')\<rparr> @
                 ''\"}'' @ [LF],
        read_error = None\<rparr>
     = Inr []"
proof
  fix Unmarshal
  let ?l = "''{\"message\":\"'' @ replicate 70000 (CHR ''x'') @ ''\"}''"
  let ?r = "\<lparr>stream = ?l @ [LF], read_error = None\<rparr>"
  have "Scanner_tokens (NewScanner ?r) = map dropCR []"
  proof (rule Scanner_tokens_too_long [where l' = ?l and rest = "[LF]"])
    show "\<forall>l\<in>set []. LF \<notin> set l \<and> length l < MaxScanTokenSize" by simp
    show "LF \<notin> set ?l" by (simp add: LF_def)
    show "MaxScanTokenSize \<le> length ?l" by (simp add: MaxScanTokenSize_def)
    show "pending (NewScanner ?r) = concat (map (\<lambda>l. l @ [LF]) []) @ ?l @ [LF]"
      by (simp add: NewScanner_def)
  qed
  then have "RDJSONLParser_Parse Unmarshal ?r = Inr []"
    by (simp add: RDJSONLParser_Parse_tokens)
  then show "RDJSONLParser_Parse Unmarshal
       \<lparr>stream = ''{\"message\":\"'' @
                 Diagnostic.Message
                   \<lparr>Location = None, Diagnostic.Message = replicate 70000 (CHR ''x'')\<rparr> @
                 ''\"}'' @ [LF],
        read_error = None\<rparr>
     = Inr []"
    by simp
qed

subsection \<open>The line-delimited record parser: blank lines\<close>

text \<open>
  C8, as the code has it. Every line of the input that ends in a newline and is
  shorter than \<open>MaxScanTokenSize\<close> bytes is handed to the decoder, in order and without
  its end-of-line marker, the empty lines too: \<open>Parse\<close> returns what the loop body
  returns on these lines. Nothing else is decoded; in particular the empty rest after
  the last newline yields neither a record nor a decode failure.
\<close>

theorem RDJSONLParser_Parse_every_line:
  assumes "\<forall>l\<in>set ls. LF \<notin> set l \<and> length l < MaxScanTokenSize"
    and "stream r = concat (map (\<lambda>l. l @ [LF]) ls)"
  shows "Scanner_tokens (NewScanner r) = map dropCR ls \<and>
         RDJSONLParser_Parse Unmarshal r = decode_lines Unmarshal (map dropCR ls) []"
proof -
  have "Scanner_tokens (NewScanner r) = map dropCR ls"
    using assms by (intro Scanner_tokens_lines) (simp_all add: NewScanner_def)
  then show ?thesis
    by (simp add: RDJSONLParser_Parse_tokens)
qed

text \<open>
  A blank line between two well-formed lines, with a decoder that fails on the empty
  input as \<^verbatim>\<open>json.Unmarshal\<close> does.
\<close>

theorem RDJSONLParser_Parse_every_line_witness:
  "Scanner_tokens (NewScanner
     \<lparr>stream = concat (map (\<lambda>l. l @ [LF]) [''{\"message\":\"a\"}'', [], ''{\"message\":\"a\"}'']),
      read_error = None\<rparr>)
     = [''{\"message\":\"a\"}'', [], ''{\"message\":\"a\"}''] \<and>
   RDJSONLParser_Parse
     (\<lambda>l. if l = ''{\"message\":\"a\"}'' then Inr \<lparr>Location = None, Diagnostic.Message = ''a''\<rparr>
          else Inl ''unexpected end of JSON input'')
     \<lparr>stream = concat (map (\<lambda>l. l @ [LF]) [''{\"message\":\"a\"}'', [], ''{\"message\":\"a\"}'']),
      read_error = None\<rparr>
     = Inl (DecodeError ''unexpected end of JSON input'')"
proof -
  let ?U = "\<lambda>l. if l = ''{\"message\":\"a\"}'' then Inr \<lparr>Location = None, Diagnostic.Message = ''a''\<rparr>
          else Inl ''unexpected end of JSON input''"
  let ?ls = "[''{\"message\":\"a\"}'', [], ''{\"message\":\"a\"}'']"
  let ?r = "\<lparr>stream = concat (map (\<lambda>l. l @ [LF]) ?ls), read_error = None\<rparr>"
  have h1: "\<forall>l\<in>set ?ls. LF \<notin> set l \<and> length l < MaxScanTokenSize"
    by (simp add: LF_def MaxScanTokenSize_def)
  have h2: "stream ?r = concat (map (\<lambda>l. l @ [LF]) ?ls)"
    by simp
  from RDJSONLParser_Parse_every_line [of ?ls ?r ?U, OF h1 h2]
  show ?thesis
    by (simp add: dropCR_def CR_def)
qed

text \<open>
  C8 as stated fails: a blank line is decoded. On the input of one empty line the
  result is the decoder's failure on the empty input or one record, never the empty
  sequence; a blank line after a well-formed line is decoded as the second line.
\<close>

theorem RDJSONLParser_Parse_blank_line:
  "(\<forall>Unmarshal.
      RDJSONLParser_Parse Unmarshal \<lparr>stream = [LF], read_error = None\<rparr>
        = (case Unmarshal [] of
             Inl msg \<Rightarrow> Inl (DecodeError msg)
           | Inr d \<Rightarrow> Inr [\<lparr>Diagnostic = d, CheckResult.Lines = [[]]\<rparr>])) \<and>
   (\<forall>Unmarshal.
      RDJSONLParser_Parse Unmarshal \<lparr>stream = [LF], read_error = None\<rparr> \<noteq> Inr []) \<and>
   (\<forall>Unmarshal.
      RDJSONLParser_Parse Unmarshal
          \<lparr>stream = ''{\"message\":\"a\"}'' @ [LF, LF], read_error = None\<rparr>
        = (case Unmarshal ''{\"message\":\"a\"}'' of
             Inl msg \<Rightarrow> Inl (DecodeError msg)
           | Inr d \<Rightarrow>
               (case Unmarshal [] of
                  Inl msg \<Rightarrow> Inl (DecodeError msg)
                | Inr d' \<Rightarrow>
                    Inr [\<lparr>Diagnostic = d, CheckResult.Lines = [''{\"message\":\"a\"}'']\<rparr>,
                         \<lparr>Diagnostic = d', CheckResult.Lines = [[]]\<rparr>])))"
proof -
  have one: "Scanner_tokens (NewScanner \<lparr>stream = [LF], read_error = None\<rparr>) = map dropCR [[]]"
    by (rule Scanner_tokens_lines) (simp_all add: NewScanner_def MaxScanTokenSize_def)
  have two: "Scanner_tokens (NewScanner
               \<lparr>stream = ''{\"message\":\"a\"}'' @ [LF, LF], read_error = None\<rparr>)
             = map dropCR [''{\"message\":\"a\"}'', []]"
    by (rule Scanner_tokens_lines) (simp_all add: NewScanner_def MaxScanTokenSize_def LF_def)
  have a: "RDJSONLParser_Parse Unmarshal \<lparr>stream = [LF], read_error = None\<rparr>
        = (case Unmarshal [] of
             Inl msg \<Rightarrow> Inl (DecodeError msg)
           | Inr d \<Rightarrow> Inr [\<lparr>Diagnostic = d, CheckResult.Lines = [[]]\<rparr>])" for Unmarshal
    using one by (simp add: RDJSONLParser_Parse_tokens dropCR_def split: sum.split)
  have b: "RDJSONLParser_Parse Unmarshal \<lparr>stream = [LF], read_error = None\<rparr> \<noteq> Inr []"
    for Unmarshal
    unfolding a by (simp split: sum.split)
  have c: "RDJSONLParser_Parse Unmarshal
          \<lparr>stream = ''{\"message\":\"a\"}'' @ [LF, LF], read_error = None\<rparr>
        = (case Unmarshal ''{\"message\":\"a\"}'' of
             Inl msg \<Rightarrow> Inl (DecodeError msg)
           | Inr d \<Rightarrow>
               (case Unmarshal [] of
                  Inl msg \<Rightarrow> Inl (DecodeError msg)
                | Inr d' \<Rightarrow>
                    Inr [\<lparr>Diagnostic = d, CheckResult.Lines = [''{\"message\":\"a\"}'']\<rparr>,
                         \<lparr>Diagnostic = d', CheckResult.Lines = [[]]\<rparr>]))" for Unmarshal
    using two by (simp add: RDJSONLParser_Parse_tokens dropCR_def CR_def split: sum.split)
  from a b c show ?thesis
    by blast
qed

subsection \<open>The line-delimited record parser: read errors\<close>

text \<open>
  C10, as the code has it. Let the bytes the reader delivers before it fails be lines
  shorter than \<open>MaxScanTokenSize\<close> bytes, each ended by a newline, the last one, when it
  is not empty, possibly cut off without one. Then the reader's error is never
  surfaced: \<open>Parse\<close> returns what it returns for a reader that delivers the same bytes
  and ends. Every line, the piece cut off included, is handed to the decoder. The only
  error \<open>Parse\<close> returns is the decoder's on one of these lines; when every one of them
  decodes, \<open>Parse\<close> returns their results with a \<^verbatim>\<open>nil\<close> error.
\<close>

theorem RDJSONLParser_Parse_read_error:
  assumes "\<forall>l\<in>set ls. LF \<notin> set l \<and> length l < MaxScanTokenSize"
    and "stream r = concat (map (\<lambda>l. l @ [LF]) ls) \<or>
         (ls \<noteq> [] \<and> last ls \<noteq> [] \<and>
          stream r = concat (map (\<lambda>l. l @ [LF]) (butlast ls)) @ last ls)"
  shows "RDJSONLParser_Parse Unmarshal (r\<lparr>read_error := Some e\<rparr>) =
           RDJSONLParser_Parse Unmarshal (r\<lparr>read_error := None\<rparr>) \<and>
         RDJSONLParser_Parse Unmarshal (r\<lparr>read_error := Some e\<rparr>) =
           decode_lines Unmarshal (map dropCR ls) [] \<and>
         (\<forall>x. RDJSONLParser_Parse Unmarshal (r\<lparr>read_error := Some e\<rparr>) = Inl x \<longrightarrow>
              (\<exists>l\<in>set ls. \<exists>msg. Unmarshal (dropCR l) = Inl msg \<and> x = DecodeError msg)) \<and>
         ((\<forall>l\<in>set ls. \<not> isl (Unmarshal (dropCR l))) \<longrightarrow>
            RDJSONLParser_Parse Unmarshal (r\<lparr>read_error := Some e\<rparr>) =
              Inr (map (\<lambda>l. \<lparr>Diagnostic = projr (Unmarshal (dropCR l)),
                              CheckResult.Lines = [dropCR l]\<rparr>) ls))"
proof -
  have toks: "Scanner_tokens (NewScanner (r\<lparr>read_error := x\<rparr>)) = map dropCR ls" for x
    using assms by (intro Scanner_tokens_of_lines) (simp_all add: NewScanner_def)
  have parse: "RDJSONLParser_Parse Unmarshal (r\<lparr>read_error := x\<rparr>) =
                 decode_lines Unmarshal (map dropCR ls) []" for x
    by (simp add: RDJSONLParser_Parse_tokens toks)
  have err: "\<exists>l\<in>set ls. \<exists>msg. Unmarshal (dropCR l) = Inl msg \<and> x = DecodeError msg"
    if "decode_lines Unmarshal (map dropCR ls) [] = Inl x" for x
  proof -
    from decode_lines_error [OF that]
    obtain t msg where "t \<in> set (map dropCR ls)" "Unmarshal t = Inl msg" "x = DecodeError msg"
      by blast
    then show ?thesis by auto
  qed
  have ok: "decode_lines Unmarshal (map dropCR ls) [] =
              Inr (map (\<lambda>l. \<lparr>Diagnostic = projr (Unmarshal (dropCR l)),
                              CheckResult.Lines = [dropCR l]\<rparr>) ls)"
    if "\<forall>l\<in>set ls. \<not> isl (Unmarshal (dropCR l))"
  proof -
    from that have "\<forall>t\<in>set (map dropCR ls). \<not> isl (Unmarshal t)"
      by simp
    from decode_lines_projr [OF this, of "[]"] show ?thesis
      by (simp add: comp_def)
  qed
  from parse err ok show ?thesis
    by simp
qed

text \<open>A reader that fails after a complete line and a complete, unterminated line.\<close>

theorem RDJSONLParser_Parse_read_error_witness:
  "RDJSONLParser_Parse
     (\<lambda>l. if l = ''{\"message\":\"a\"}'' then Inr \<lparr>Location = None, Diagnostic.Message = ''a''\<rparr>
          else if l = ''{\"message\":\"b\"}'' then Inr \<lparr>Location = None, Diagnostic.Message = ''b''\<rparr>
          else Inl ''unexpected end of JSON input'')
     \<lparr>stream = ''{\"message\":\"a\"}'' @ [LF] @ ''{\"message\":\"b\"}'',
      read_error = Some ''read: connection reset by peer''\<rparr>
   = Inr [\<lparr>Diagnostic = \<lparr>Location = None, Diagnostic.Message = ''a''\<rparr>,
           CheckResult.Lines = [''{\"message\":\"a\"}'']\<rparr>,
          \<lparr>Diagnostic = \<lparr>Location = None, Diagnostic.Message = ''b''\<rparr>,
           CheckResult.Lines = [''{\"message\":\"b\"}'']\<rparr>] \<and>
   RDJSONLParser_Parse
     (\<lambda>l. if l = ''{\"message\":\"a\"}'' then Inr \<lparr>Location = None, Diagnostic.Message = ''a''\<rparr>
          else if l = ''{\"message\":\"b\"}'' then Inr \<lparr>Location = None, Diagnostic.Message = ''b''\<rparr>
          else Inl ''unexpected end of JSON input'')
     \<lparr>stream = ''{\"message\":\"a\"}'' @ [LF] @ ''{\"message\":\"b\"}'',
      read_error = None\<rparr>
   = Inr [\<lparr>Diagnostic = \<lparr>Location = None, Diagnostic.Message = ''a''\<rparr>,
           CheckResult.Lines = [''{\"message\":\"a\"}'']\<rparr>,
          \<lparr>Diagnostic = \<lparr>Location = None, Diagnostic.Message = ''b''\<rparr>,
           CheckResult.Lines = [''{\"message\":\"b\"}'']\<rparr>]"
proof -
  let ?U = "\<lambda>l. if l = ''{\"message\":\"a\"}'' then Inr \<lparr>Location = None, Diagnostic.Message = ''a''\<rparr>
          else if l = ''{\"message\":\"b\"}'' then Inr \<lparr>Location = None, Diagnostic.Message = ''b''\<rparr>
          else Inl ''unexpected end of JSON input''"
  let ?ls = "[''{\"message\":\"a\"}'', ''{\"message\":\"b\"}'']"
  let ?r = "\<lparr>stream = ''{\"message\":\"a\"}'' @ [LF] @ ''{\"message\":\"b\"}'', read_error = None\<rparr>"
  have h1: "\<forall>l\<in>set ?ls. LF \<notin> set l \<and> length l < MaxScanTokenSize"
    by (simp add: LF_def MaxScanTokenSize_def)
  have h2: "stream ?r = concat (map (\<lambda>l. l @ [LF]) ?ls) \<or>
         (?ls \<noteq> [] \<and> last ?ls \<noteq> [] \<and>
          stream ?r = concat (map (\<lambda>l. l @ [LF]) (butlast ?ls)) @ last ?ls)"
    by simp
  have h3: "\<forall>l\<in>set ?ls. \<not> isl (?U (dropCR l))"
    by (simp add: dropCR_def CR_def)
  let ?e = "''read: connection reset by peer''"
  let ?rs = "map (\<lambda>l. \<lparr>Diagnostic = projr (?U (dropCR l)), CheckResult.Lines = [dropCR l]\<rparr>) ?ls"
  note all = RDJSONLParser_Parse_read_error
    [where ls = ?ls and r = ?r and Unmarshal = ?U and e = ?e, OF h1 h2]
  have same: "RDJSONLParser_Parse ?U (?r\<lparr>read_error := Some ?e\<rparr>)
              = RDJSONLParser_Parse ?U (?r\<lparr>read_error := None\<rparr>)"
    using all by (rule conjunct1)
  have res: "RDJSONLParser_Parse ?U (?r\<lparr>read_error := Some ?e\<rparr>) = Inr ?rs"
    using all [THEN conjunct2, THEN conjunct2, THEN conjunct2] h3 by (rule mp)
  have res': "RDJSONLParser_Parse ?U (?r\<lparr>read_error := None\<rparr>) = Inr ?rs"
    using same [symmetric] res by (rule trans)
  have rs: "?rs = [\<lparr>Diagnostic = \<lparr>Location = None, Diagnostic.Message = ''a''\<rparr>,
           CheckResult.Lines = [''{\"message\":\"a\"}'']\<rparr>,
          \<lparr>Diagnostic = \<lparr>Location = None, Diagnostic.Message = ''b''\<rparr>,
           CheckResult.Lines = [''{\"message\":\"b\"}'']\<rparr>]"
    by (simp add: dropCR_def CR_def)
  have upd1: "?r\<lparr>read_error := Some ?e\<rparr> =
              \<lparr>stream = ''{\"message\":\"a\"}'' @ [LF] @ ''{\"message\":\"b\"}'',
               read_error = Some ?e\<rparr>"
    by simp
  have upd2: "?r\<lparr>read_error := None\<rparr> = ?r"
    by simp
  from res [unfolded upd1 rs] res' [unfolded upd2 rs] show ?thesis
    by (rule conjI)
qed

text \<open>
  C10 as stated fails. When the reader fails in the middle of a line, the piece read
  so far is decoded as a line: \<open>Parse\<close> returns the decoder's verdict on it, for a
  decoder that rejects a truncated object an error and no results, not the results of
  the complete lines with a \<^verbatim>\<open>nil\<close> error. And when a line of 65550 bytes is among the
  lines read, the lines behind it are lost: of three lines that decode, \<open>Parse\<close>
  returns the first.
\<close>

theorem RDJSONLParser_Parse_truncated_line:
  "(\<forall>Unmarshal.
      RDJSONLParser_Parse Unmarshal
          \<lparr>stream = ''{\"message\":\"a\"}'' @ [LF] @ ''{\"mess'',
           read_error = Some ''read: connection reset by peer''\<rparr>
        = (case Unmarshal ''{\"message\":\"a\"}'' of
             Inl msg \<Rightarrow> Inl (DecodeError msg)
           | Inr d \<Rightarrow>
               (case Unmarshal ''{\"mess'' of
                  Inl msg \<Rightarrow> Inl (DecodeError msg)
                | Inr d' \<Rightarrow>
                    Inr [\<lparr>Diagnostic = d, CheckResult.Lines = [''{\"message\":\"a\"}'']\<rparr>,
                         \<lparr>Diagnostic = d', CheckResult.Lines = [''{\"mess'']\<rparr>]))) \<and>
   \<not> (\<forall>Unmarshal r. read_error r \<noteq> None \<longrightarrow>
          (\<exists>rs. RDJSONLParser_Parse Unmarshal r = Inr rs)) \<and>
   (\<forall>Unmarshal.
      RDJSONLParser_Parse Unmarshal
          \<lparr>stream = ''{\"message\":\"a\"}'' @ [LF] @
                    ''{\"message\":\"'' @ replicate 65536 (CHR ''a'') @ ''\"}'' @ [LF] @
                    ''{\"message\":\"a\"}'' @ [LF],
           read_error = Some ''read: connection reset by peer''\<rparr>
        = (case Unmarshal ''{\"message\":\"a\"}'' of
             Inl msg \<Rightarrow> Inl (DecodeError msg)
           | Inr d \<Rightarrow> Inr [\<lparr>Diagnostic = d, CheckResult.Lines = [''{\"message\":\"a\"}'']\<rparr>]))"
proof -
  let ?r = "\<lparr>stream = ''{\"message\":\"a\"}'' @ [LF] @ ''{\"mess'',
           read_error = Some ''read: connection reset by peer''\<rparr>"
  have "Scanner_tokens (NewScanner ?r) = map dropCR ([''{\"message\":\"a\"}''] @ [''{\"mess''])"
    by (rule Scanner_tokens_last_line)
      (simp_all add: NewScanner_def MaxScanTokenSize_def LF_def)
  then have toks: "Scanner_tokens (NewScanner ?r) = [''{\"message\":\"a\"}'', ''{\"mess'']"
    by (simp add: dropCR_def CR_def)
  have a: "RDJSONLParser_Parse Unmarshal ?r
        = (case Unmarshal ''{\"message\":\"a\"}'' of
             Inl msg \<Rightarrow> Inl (DecodeError msg)
           | Inr d \<Rightarrow>
               (case Unmarshal ''{\"mess'' of
                  Inl msg \<Rightarrow> Inl (DecodeError msg)
                | Inr d' \<Rightarrow>
                    Inr [\<lparr>Diagnostic = d, CheckResult.Lines = [''{\"message\":\"a\"}'']\<rparr>,
                         \<lparr>Diagnostic = d', CheckResult.Lines = [''{\"mess'']\<rparr>]))" for Unmarshal
    using toks by (simp add: RDJSONLParser_Parse_tokens split: sum.split)
  let ?U = "\<lambda>l. if l = ''{\"message\":\"a\"}'' then Inr \<lparr>Location = None, Diagnostic.Message = ''a''\<rparr>
          else Inl ''unexpected end of JSON input''"
  have "RDJSONLParser_Parse ?U ?r = Inl (DecodeError ''unexpected end of JSON input'')"
    unfolding a by simp
  then have "read_error ?r \<noteq> None \<and> \<not> (\<exists>rs. RDJSONLParser_Parse ?U ?r = Inr rs)"
    by simp
  then have b: "\<not> (\<forall>Unmarshal r. read_error r \<noteq> None \<longrightarrow>
          (\<exists>rs. RDJSONLParser_Parse Unmarshal r = Inr rs))"
    by blast
  let ?long = "''{\"message\":\"'' @ replicate 65536 (CHR ''a'') @ ''\"}''"
  let ?rest = "[LF] @ ''{\"message\":\"a\"}'' @ [LF]"
  let ?r3 = "\<lparr>stream = ''{\"message\":\"a\"}'' @ [LF] @ ?long @ ?rest,
             read_error = Some ''read: connection reset by peer''\<rparr>"
  have long: "LF \<notin> set ?long" "MaxScanTokenSize \<le> length ?long"
    by (simp_all add: LF_def MaxScanTokenSize_def)
  have t3: "Scanner_tokens (NewScanner ?r3) = map dropCR [''{\"message\":\"a\"}'']"
    using long by (intro Scanner_tokens_too_long [where l' = ?long and rest = ?rest])
      (simp_all add: NewScanner_def LF_def MaxScanTokenSize_def)
  have c: "RDJSONLParser_Parse Unmarshal ?r3
        = (case Unmarshal ''{\"message\":\"a\"}'' of
             Inl msg \<Rightarrow> Inl (DecodeError msg)
           | Inr d \<Rightarrow> Inr [\<lparr>Diagnostic = d, CheckResult.Lines = [''{\"message\":\"a\"}'']\<rparr>])"
    for Unmarshal
    using t3 by (simp add: RDJSONLParser_Parse_tokens dropCR_def CR_def split: sum.split)
  from a b c show ?thesis
    by simp
qed

end
